theory Spec2Isabelle
  imports Main "HOL-Library.Word" "HOL-Library.Signed_Division"
begin

section \<open>tail-ws: the watch reader (watch/watch.go)\<close>

text \<open>
  The reader tails one file. Its environment is the file system, the notification
  library (fsnotify) and the Go runtime's channels; each is modelled by the little the
  reader's code asks of it.
\<close>

subsection \<open>Errors\<close>

text \<open>
  The three sentinel errors of the package (\<open>ErrFileDeleted\<close>, \<open>ErrFileOverwritten\<close>,
  \<open>ErrFileRenamed\<close>), \<open>io.EOF\<close>, the errors the file system model can produce, the
  wrapping of \<open>fmt.Errorf("...: %w", err)\<close>, a nil dereference (\<open>ErrPanic\<close>) and any
  other error of the environment.
\<close>

datatype error =
    ErrFileDeleted
  | ErrFileOverwritten
  | ErrFileRenamed
  | EOF
  | ErrNotExist
  | ErrClosed
  | ErrInvalid
  | ErrWrap string error
  | ErrPanic
  | ErrOther string

subsection \<open>The file system and open files\<close>

text \<open>
  A path names an inode, an inode holds bytes. An open file (\<open>*os.File\<close>) keeps its
  inode, so that a handle opened before the path was removed and created again still
  reads the old file.
\<close>

record FS =
  names :: "string \<rightharpoonup> nat"
  inodes :: "nat \<rightharpoonup> string"

record File =
  ino :: nat
  pos :: int
  fclosed :: bool

datatype whence = io_SeekStart | io_SeekEnd

definition content :: "FS \<Rightarrow> nat \<Rightarrow> string" where
  "content fs i = (case inodes fs i of None \<Rightarrow> [] | Some d \<Rightarrow> d)"

definition os_Stat :: "FS \<Rightarrow> string \<Rightarrow> error + int" where
  "os_Stat fs name =
     (case names fs name of
        None \<Rightarrow> Inl ErrNotExist
      | Some i \<Rightarrow> Inr (int (length (content fs i))))"

definition IsNotExist :: "error \<Rightarrow> bool" where
  "IsNotExist err = (err = ErrNotExist)"

definition os_Open :: "FS \<Rightarrow> string \<Rightarrow> error + File" where
  "os_Open fs name =
     (case names fs name of
        None \<Rightarrow> Inl ErrNotExist
      | Some i \<Rightarrow> Inr \<lparr>ino = i, pos = 0, fclosed = False\<rparr>)"

definition File_Seek :: "FS \<Rightarrow> File \<Rightarrow> int \<Rightarrow> whence \<Rightarrow> error + File" where
  "File_Seek fs f off wh =
     (if fclosed f then Inl ErrClosed
      else let base = (case wh of io_SeekStart \<Rightarrow> 0
                                | io_SeekEnd \<Rightarrow> int (length (content fs (ino f))));
               p = base + off
           in if p < 0 then Inl ErrInvalid else Inr (f\<lparr>pos := p\<rparr>))"

text \<open>
  \<open>f.Read(b)\<close> with \<open>len(b) = n\<close>: the bytes read, the error and the file with its
  position advanced. At the end of the content it returns no byte and \<open>io.EOF\<close>.
\<close>

definition File_Read :: "FS \<Rightarrow> File \<Rightarrow> nat \<Rightarrow> (string \<times> error option) \<times> File" where
  "File_Read fs f n =
     (if fclosed f then (([], Some ErrClosed), f)
      else if n = 0 then (([], None), f)
      else let d = take n (drop (nat (pos f)) (content fs (ino f)))
           in if d = [] then (([], Some EOF), f)
              else ((d, None), f\<lparr>pos := pos f + int (length d)\<rparr>))"

definition File_Close :: "File \<Rightarrow> File" where
  "File_Close f = f\<lparr>fclosed := True\<rparr>"

subsection \<open>Events of fsnotify\<close>

text \<open>
  \<open>fsnotify.Op\<close> is a bit mask of the five operations; an event carries the path and
  the set of operations, and \<open>e.Has(op)\<close> tests one of them.
\<close>

datatype Op = Create | Write | Remove | Rename | Chmod

record Event =
  Name :: string
  Op :: "Op set"

definition Has :: "Event \<Rightarrow> Op \<Rightarrow> bool" where
  "Has e h = (h \<in> Op e)"

subsection \<open>The reader\<close>

text \<open>
  \<open>type reader struct { offset int64; seekEnd bool; file io.ReadSeekCloser; read chan struct{} }\<close>.
  The offset is an \<open>int\<close> holding the value of the \<open>int64\<close>; the one arithmetic
  operation on it, the \<open>+=\<close> of \<open>Read\<close>, wraps around as \<open>int64\<close> does. The unbuffered
  channel \<open>read\<close> carries no data; the reader's state only records whether it has been
  closed.
\<close>

definition int64 :: "int \<Rightarrow> int" where
  "int64 x = (x + 2 ^ 63) mod 2 ^ 64 - 2 ^ 63"

definition is_int64 :: "int \<Rightarrow> bool" where
  "is_int64 x = (- (2 ^ 63) \<le> x \<and> x < 2 ^ 63)"

datatype chan = ChanOpen | ChanClosed

record reader =
  offset :: int
  seekEnd :: bool
  file' :: "File option"
  read :: chan

datatype watch_Option = StartOffset int | SeekEnd

fun apply_Option :: "watch_Option \<Rightarrow> reader \<Rightarrow> reader" where
  "apply_Option (StartOffset off) r = r\<lparr>offset := off\<rparr>"
| "apply_Option SeekEnd r = r\<lparr>seekEnd := True\<rparr>"

definition NewReader :: "watch_Option list \<Rightarrow> reader" where
  "NewReader options =
     fold apply_Option options \<lparr>offset = 0, seekEnd = False, file' = None, read = ChanOpen\<rparr>"

definition GetOffset :: "reader \<Rightarrow> int" where
  "GetOffset r = offset r"

definition reader_Close :: "reader \<Rightarrow> reader" where
  "reader_Close r = r\<lparr>read := ChanClosed\<rparr>"

text \<open>
  \<open>openFile\<close>: open by path, then seek to the reader's offset when it is positive, else
  to the end when \<open>seekEnd\<close> is set, else stay at byte 0.
\<close>

definition openFile :: "reader \<Rightarrow> FS \<Rightarrow> string \<Rightarrow> error + File" where
  "openFile r fs name =
     (case os_Open fs name of
        Inl err \<Rightarrow> Inl err
      | Inr f \<Rightarrow>
          if offset r > 0 then
            (case File_Seek fs f (offset r) io_SeekStart of
               Inl err \<Rightarrow> Inl (ErrWrap ''error seeking file offset'' err)
             | Inr f' \<Rightarrow> Inr f')
          else if seekEnd r then
            (case File_Seek fs f 0 io_SeekEnd of
               Inl err \<Rightarrow> Inl (ErrWrap ''error seeking file end'' err)
             | Inr f' \<Rightarrow> Inr f')
          else Inr f)"

text \<open>
  The send \<open>r.read <- struct{}{}\<close>: one signal on the open channel, a panic on the
  closed one.
\<close>

definition send_read :: "reader \<Rightarrow> error option \<times> reader \<times> nat" where
  "send_read r =
     (case read r of
        ChanOpen \<Rightarrow> (None, r, 1)
      | ChanClosed \<Rightarrow> (Some ErrPanic, r, 0))"

text \<open>
  \<open>handleEvent\<close> returns the error, the reader, and how many times it sent on the
  \<open>read\<close> channel (the send is its last statement, so the count is 0 or 1). The file
  system is the one the handler's \<open>os.Stat\<close> sees. A panic (the seek through a nil
  \<open>r.file\<close>, the send on a closed channel) is the result \<open>ErrPanic\<close>.
\<close>

definition handleEvent :: "FS \<Rightarrow> Event \<Rightarrow> reader \<Rightarrow> error option \<times> reader \<times> nat" where
  "handleEvent fs e r =
     (if Has e Remove then
        (case os_Stat fs (Name e) of
           Inl err \<Rightarrow> if IsNotExist err then (Some ErrFileDeleted, r, 0)
                      else (Some ErrFileOverwritten, r, 0)
         | Inr _ \<Rightarrow> (Some ErrFileOverwritten, r, 0))
      else if Has e Rename then (Some ErrFileRenamed, r, 0)
      else if Has e Write then
        (case os_Stat fs (Name e) of
           Inl err \<Rightarrow> (Some err, r, 0)
         | Inr sz \<Rightarrow>
             if sz \<le> offset r then
               (case file' r of
                  None \<Rightarrow> (Some ErrPanic, r, 0)
                | Some f \<Rightarrow>
                    (case File_Seek fs f 0 io_SeekStart of
                       Inl err \<Rightarrow> (Some err, r, 0)
                     | Inr f' \<Rightarrow>
                         let r' = r\<lparr>file' := Some f', offset := 0\<rparr>
                         in if sz = 0 then (None, r', 0) else send_read r'))
             else send_read r)
      else (None, r, 0))"

text \<open>
  One turn of the loop of \<open>Read\<close>, after \<open>r.file.Read(b)\<close> has returned \<open>n\<close> bytes and
  \<open>err\<close>: \<open>Some\<close> what \<open>Read\<close> returns, or \<open>None\<close> when it goes on to wait for the next
  signal.
\<close>

definition Read_attempt ::
  "reader \<Rightarrow> nat \<Rightarrow> error option \<Rightarrow> ((nat \<times> error option) \<times> reader) option" where
  "Read_attempt r n err =
     (if err \<noteq> None \<and> err \<noteq> Some EOF then Some ((n, err), r)
      else if n > 0 then Some ((n, None), r\<lparr>offset := int64 (offset r + int n)\<rparr>)
      else None)"

text \<open>
  \<open>Read\<close> against what its receives on \<open>r.read\<close> yield, in order: a signal, after which
  the file is read with the given result (\<open>r.file\<close> is an \<open>io.ReadSeekCloser\<close>: any
  count and error), or the closed channel. When nothing more arrives, \<open>Read\<close> stays
  blocked: \<open>None\<close>.
\<close>

datatype wake = Signal nat "error option" | Closed

fun Read :: "reader \<Rightarrow> wake list \<Rightarrow> ((nat \<times> error option) \<times> reader) option" where
  "Read r [] = None"
| "Read r (Closed # ws) = Some ((0, Some EOF), r)"
| "Read r (Signal n err # ws) =
     (case Read_attempt r n err of
        Some res \<Rightarrow> Some res
      | None \<Rightarrow> Read r ws)"

subsection \<open>Server.Watch: the two goroutines around the reader\<close>

text \<open>
  \<open>Server.Watch\<close> makes one reader with \<open>SeekEnd\<close> and starts two goroutines. The
  first scans the reader (\<open>bufio.Scanner\<close> calls \<open>Read\<close> again and again); the second
  calls \<open>r.Watch\<close> in a loop, again as long as it returns \<open>ErrFileOverwritten\<close>, and
  closes the reader when the loop ends. They meet on the unbuffered channel: the
  handler's send waits for the consumer's receive.

  The watcher goroutine is about to call \<open>r.Watch\<close> (\<open>Calling\<close>), in the event loop
  (\<open>Watching\<close>), inside \<open>handleEvent\<close> at the send (\<open>Sending\<close>), or has left the loop
  with its result (\<open>Returned\<close>). The consumer is blocked on the receive (\<open>Waiting\<close>),
  has been woken and is about to read the file (\<open>Woken\<close>), or has had an error from
  \<open>Read\<close> and stopped (\<open>Finished\<close>). \<open>out\<close> lists what \<open>Read\<close> returned so far.
\<close>

datatype wstate = Calling | Watching | Sending | Returned "error option"

datatype cstate = Waiting | Woken | Finished

record world =
  rd :: reader
  watcher :: wstate
  consumer :: cstate
  out :: "(string \<times> error option) list"
  panicked :: bool

text \<open>
  What can happen next. The actions that look at the file system carry the file system
  of that moment, so the environment may change the files between any two of them.
  \<^item> \<open>CallWatch fs werr\<close>: the loop calls \<open>r.Watch\<close>; \<open>werr\<close> is the error of
    \<open>fsnotify.NewWatcher\<close> or \<open>watcher.Add\<close>, if any. The name is taken as absolute.
  \<^item> \<open>FsEvent fs e\<close>, \<open>FsError err\<close>, \<open>CtxDone\<close>: the three cases of the \<open>select\<close>.
  \<^item> \<open>Deliver\<close>: the send of the handler meets the receive of \<open>Read\<close>.
  \<^item> \<open>FileRead fs n\<close>: the woken consumer runs \<open>r.file.Read(b)\<close> with \<open>len(b) = n\<close>.
  \<^item> \<open>RecvClosed\<close>: the consumer's receive finds the channel closed.
\<close>

datatype action =
    CallWatch FS "error option"
  | FsEvent FS Event
  | FsError "error option"
  | CtxDone
  | Deliver
  | FileRead FS nat
  | RecvClosed

text \<open>
  The loop of \<open>Server.Watch\<close> after \<open>r.Watch\<close> has returned \<open>err\<close>: it calls again on
  \<open>ErrFileOverwritten\<close>, and returns \<open>err\<close> otherwise (the deferred \<open>r.Close()\<close> runs).
\<close>

definition loop_next :: "error option \<Rightarrow> world \<Rightarrow> world" where
  "loop_next err w =
     (if err = Some ErrFileOverwritten then w\<lparr>watcher := Calling\<rparr>
      else w\<lparr>rd := reader_Close (rd w), watcher := Returned err\<rparr>)"

text \<open>\<open>r.Watch\<close> returns after the file was opened: the deferred \<open>r.file.Close()\<close> runs.\<close>

definition Watch_return :: "error option \<Rightarrow> world \<Rightarrow> world" where
  "Watch_return err w =
     loop_next err (w\<lparr>rd := (rd w)\<lparr>file' := map_option File_Close (file' (rd w))\<rparr>\<rparr>)"

text \<open>
  One step of the two goroutines on the watched path \<open>name\<close>; \<open>None\<close> when the action
  cannot happen in this state. \<open>CallWatch\<close> is the start of \<open>r.Watch\<close>: \<open>openFile\<close>,
  whose failure leaves \<open>r.file\<close> nil and returns at once, then the deferred close and the
  making of the watcher. \<open>FsEvent\<close>, \<open>FsError\<close> and \<open>CtxDone\<close> are the cases of the
  \<open>select\<close> in its goroutine; an event on another path is skipped. \<open>Deliver\<close>,
  \<open>FileRead\<close> and \<open>RecvClosed\<close> are the receives and the loop body of \<open>Read\<close>; after
  a \<open>Read\<close> that returned bytes the scanner calls \<open>Read\<close> again, which waits. Reading
  through a nil \<open>r.file\<close> panics, and so does a handler whose result is \<open>ErrPanic\<close>;
  after a panic nothing happens any more.
\<close>

fun step :: "string \<Rightarrow> action \<Rightarrow> world \<Rightarrow> world option" where
  "step name (CallWatch fs werr) w =
     (if panicked w \<or> watcher w \<noteq> Calling then None
      else case openFile (rd w) fs name of
             Inl err \<Rightarrow> Some (loop_next (Some err) (w\<lparr>rd := (rd w)\<lparr>file' := None\<rparr>\<rparr>))
           | Inr f \<Rightarrow>
               (case werr of
                  Some err \<Rightarrow> Some (Watch_return (Some err) (w\<lparr>rd := (rd w)\<lparr>file' := Some f\<rparr>\<rparr>))
                | None \<Rightarrow> Some (w\<lparr>rd := (rd w)\<lparr>file' := Some f\<rparr>, watcher := Watching\<rparr>)))"
| "step name (FsEvent fs e) w =
     (if panicked w \<or> watcher w \<noteq> Watching then None
      else if Name e \<noteq> name then Some w
      else case handleEvent fs e (rd w) of
             (Some err, r, k) \<Rightarrow>
               if err = ErrPanic then Some (w\<lparr>rd := r, panicked := True\<rparr>)
               else Some (Watch_return (Some err) (w\<lparr>rd := r\<rparr>))
           | (None, r, k) \<Rightarrow> Some (w\<lparr>rd := r, watcher := (if 0 < k then Sending else Watching)\<rparr>))"
| "step name (FsError werr) w =
     (if panicked w \<or> watcher w \<noteq> Watching then None
      else case werr of
             Some err \<Rightarrow> Some (Watch_return (Some err) w)
           | None \<Rightarrow> Some w)"
| "step name CtxDone w =
     (if panicked w \<or> watcher w \<noteq> Watching then None
      else Some (Watch_return None w))"
| "step name Deliver w =
     (if panicked w \<or> watcher w \<noteq> Sending \<or> consumer w \<noteq> Waiting then None
      else Some (w\<lparr>watcher := Watching, consumer := Woken\<rparr>))"
| "step name (FileRead fs n) w =
     (if panicked w \<or> consumer w \<noteq> Woken then None
      else case file' (rd w) of
             None \<Rightarrow> Some (w\<lparr>panicked := True\<rparr>)
           | Some f \<Rightarrow>
               (case File_Read fs f n of
                  ((d, err), f1) \<Rightarrow>
                    (case Read_attempt ((rd w)\<lparr>file' := Some f1\<rparr>) (length d) err of
                       None \<Rightarrow> Some (w\<lparr>rd := (rd w)\<lparr>file' := Some f1\<rparr>, consumer := Waiting\<rparr>)
                     | Some ((m, e), r) \<Rightarrow>
                         Some (w\<lparr>rd := r, out := out w @ [(take m d, e)],
                                 consumer := (if e = None then Waiting else Finished)\<rparr>))))"
| "step name RecvClosed w =
     (if panicked w \<or> consumer w \<noteq> Waiting \<or> read (rd w) \<noteq> ChanClosed then None
      else Some (w\<lparr>out := out w @ [([], Some EOF)], consumer := Finished\<rparr>))"

fun run :: "string \<Rightarrow> action list \<Rightarrow> world \<Rightarrow> world option" where
  "run name [] w = Some w"
| "run name (a # acts) w =
     (case step name a w of
        None \<Rightarrow> None
      | Some w' \<Rightarrow> run name acts w')"

definition Server_Watch :: world where
  "Server_Watch =
     \<lparr>rd = NewReader [SeekEnd], watcher = Calling, consumer = Waiting, out = [],
      panicked = False\<rparr>"

text \<open>What a run leaves: the reader's offset, the open file's position, the reads.\<close>

definition offset_after :: "world option \<Rightarrow> int option" where
  "offset_after wo = map_option (offset \<circ> rd) wo"

definition position_after :: "world option \<Rightarrow> int option" where
  "position_after wo = (case wo of None \<Rightarrow> None | Some w \<Rightarrow> map_option pos (file' (rd w)))"

definition watcher_after :: "world option \<Rightarrow> wstate option" where
  "watcher_after wo = map_option watcher wo"

definition reads_after :: "world option \<Rightarrow> string list" where
  "reads_after wo = (case wo of None \<Rightarrow> [] | Some w \<Rightarrow> map fst (out w))"

section \<open>tail-ws: the connection registry and the server (broadcast)\<close>

subsection \<open>sync.RWMutex\<close>

text \<open>
  The lock is held by any number of readers or by one writer. An operation that cannot
  go on (it would block: this model runs one call at a time, so nobody else will
  release the lock; or it is a fatal unlock of an unlocked mutex) gives \<open>None\<close>.
\<close>

record RWMutex =
  readers :: nat
  writer :: bool

definition RLock :: "RWMutex \<Rightarrow> RWMutex option" where
  "RLock m = (if writer m then None else Some (m\<lparr>readers := Suc (readers m)\<rparr>))"

definition RUnlock :: "RWMutex \<Rightarrow> RWMutex option" where
  "RUnlock m = (if readers m = 0 then None else Some (m\<lparr>readers := readers m - 1\<rparr>))"

definition Lock :: "RWMutex \<Rightarrow> RWMutex option" where
  "Lock m = (if writer m \<or> 0 < readers m then None else Some (m\<lparr>writer := True\<rparr>))"

definition Unlock :: "RWMutex \<Rightarrow> RWMutex option" where
  "Unlock m = (if writer m then Some (m\<lparr>writer := False\<rparr>) else None)"

definition unlocked :: "RWMutex \<Rightarrow> bool" where
  "unlocked m = (readers m = 0 \<and> \<not> writer m)"

subsection \<open>Connections of gorilla/websocket\<close>

text \<open>
  A \<open>*websocket.Conn\<close> is an address; the heap maps it to the connection's state: whether
  the peer can still be reached, how often \<open>Close\<close> was called on it, the binary frames
  delivered, the writes tried, the pings delivered, and whether the keepalive goroutine
  of \<open>HandleWS\<close> still runs. A write fails when the peer is gone or the connection is
  closed.
\<close>

record Conn =
  alive :: bool
  closes :: nat
  inbox :: "string list"
  attempts :: nat
  pings :: nat
  keepalive :: bool

type_synonym heap = "nat \<Rightarrow> Conn"

definition ws_Close :: "nat \<Rightarrow> heap \<Rightarrow> error option \<times> heap" where
  "ws_Close ws h =
     (if 0 < closes (h ws) then Some ErrClosed else None,
      h(ws := (h ws)\<lparr>closes := Suc (closes (h ws))\<rparr>))"

definition WriteMessage :: "nat \<Rightarrow> string \<Rightarrow> heap \<Rightarrow> error option \<times> heap" where
  "WriteMessage ws tx h =
     (let c = (h ws)\<lparr>attempts := Suc (attempts (h ws))\<rparr>
      in if alive c \<and> closes c = 0 then (None, h(ws := c\<lparr>inbox := inbox c @ [tx]\<rparr>))
         else (Some ErrClosed, h(ws := c)))"

definition WriteControl :: "nat \<Rightarrow> heap \<Rightarrow> error option \<times> heap" where
  "WriteControl ws h =
     (if alive (h ws) \<and> closes (h ws) = 0
      then (None, h(ws := (h ws)\<lparr>pings := Suc (pings (h ws))\<rparr>))
      else (Some ErrClosed, h))"

subsection \<open>The registry\<close>

text \<open>
  \<open>type Connections struct { mu sync.RWMutex; registry map[*websocket.Conn]struct{} }\<close>.
  The map is a set of addresses, kept as a list without repetition; the order of the
  list stands for the order in which \<open>range\<close> visits the map, which Go leaves open.
\<close>

record Connections =
  mu :: RWMutex
  registry :: "nat list"

definition NewConnections :: Connections where
  "NewConnections = \<lparr>mu = \<lparr>readers = 0, writer = False\<rparr>, registry = []\<rparr>"

definition IsEmpty :: "Connections \<Rightarrow> (bool \<times> Connections) option" where
  "IsEmpty c =
     (case RLock (mu c) of
        None \<Rightarrow> None
      | Some m \<Rightarrow>
          (case RUnlock m of
             None \<Rightarrow> None
           | Some m' \<Rightarrow> Some (registry c = [], c\<lparr>mu := m'\<rparr>)))"

definition Add :: "nat \<Rightarrow> Connections \<Rightarrow> Connections option" where
  "Add ws c =
     (case Lock (mu c) of
        None \<Rightarrow> None
      | Some m \<Rightarrow>
          (case Unlock m of
             None \<Rightarrow> None
           | Some m' \<Rightarrow> Some (c\<lparr>mu := m', registry := List.insert ws (registry c)\<rparr>)))"

definition Delete ::
  "nat \<Rightarrow> Connections \<Rightarrow> heap \<Rightarrow> (error option \<times> Connections \<times> heap) option" where
  "Delete ws c h =
     (case Lock (mu c) of
        None \<Rightarrow> None
      | Some m \<Rightarrow>
          (case ws_Close ws h of
             (err, h') \<Rightarrow>
               (case Unlock m of
                  None \<Rightarrow> None
                | Some m' \<Rightarrow>
                    Some (err, c\<lparr>mu := m', registry := removeAll ws (registry c)\<rparr>, h'))))"

text \<open>
  The loop of \<open>Iter\<close>: the visitor works on a state of its own and answers whether to go
  on. The result says whether the loop ran to its end (\<open>True\<close>) or left by the
  \<open>return\<close> inside it (\<open>False\<close>).
\<close>

fun Iter_range :: "(nat \<Rightarrow> 's \<Rightarrow> bool \<times> 's) \<Rightarrow> nat list \<Rightarrow> 's \<Rightarrow> bool \<times> 's" where
  "Iter_range fn [] s = (True, s)"
| "Iter_range fn (ws # rest) s =
     (case fn ws s of
        (True, s') \<Rightarrow> Iter_range fn rest s'
      | (False, s') \<Rightarrow> (False, s'))"

definition Iter ::
  "(nat \<Rightarrow> 's \<Rightarrow> bool \<times> 's) \<Rightarrow> Connections \<Rightarrow> 's \<Rightarrow> (Connections \<times> 's) option" where
  "Iter fn c s =
     (case RLock (mu c) of
        None \<Rightarrow> None
      | Some m \<Rightarrow>
          (case Iter_range fn (registry c) s of
             (False, s') \<Rightarrow> Some (c\<lparr>mu := m\<rparr>, s')
           | (True, s') \<Rightarrow>
               (case RUnlock m of
                  None \<Rightarrow> None
                | Some m' \<Rightarrow> Some (c\<lparr>mu := m'\<rparr>, s'))))"

definition Close_visit :: "nat \<Rightarrow> heap \<Rightarrow> bool \<times> heap" where
  "Close_visit ws h = (True, snd (ws_Close ws h))"

definition Connections_Close :: "Connections \<Rightarrow> heap \<Rightarrow> (Connections \<times> heap) option" where
  "Connections_Close c h = Iter Close_visit c h"

subsection \<open>The server\<close>

text \<open>
  \<open>time.Duration\<close> is an \<open>int64\<close> of nanoseconds: a 64-bit word read as signed, whose
  product wraps and whose \<open>/\<close> truncates towards zero (\<open>sdiv\<close> on the signed values).
\<close>

definition Second :: "64 word" where
  "Second = 1000000000"

definition maxMessageSize :: "64 word" where
  "maxMessageSize = 1024"

definition pongWait :: "64 word" where
  "pongWait = 60 * Second"

definition Duration_div :: "64 word \<Rightarrow> 64 word \<Rightarrow> 64 word" where
  "Duration_div a b = word_of_int (sint a sdiv sint b)"

definition pingPeriod :: "64 word" where
  "pingPeriod = Duration_div (pongWait * 9) 10"

definition writeWait :: "64 word" where
  "writeWait = 8 * Second"

definition DefaultAddr :: string where
  "DefaultAddr = ''127.0.0.1:8080''"

record Server =
  addr :: string
  origin :: string
  certFile :: string
  keyFile :: string
  connections :: Connections

datatype broadcast_Option = Address string | Origin string | Secure string string

fun apply_broadcast_Option :: "broadcast_Option \<Rightarrow> Server \<Rightarrow> Server" where
  "apply_broadcast_Option (Address a) s = s\<lparr>addr := a\<rparr>"
| "apply_broadcast_Option (Origin o') s = s\<lparr>origin := o'\<rparr>"
| "apply_broadcast_Option (Secure cf kf) s = s\<lparr>certFile := cf, keyFile := kf\<rparr>"

definition NewServer :: "broadcast_Option list \<Rightarrow> Server" where
  "NewServer options =
     fold apply_broadcast_Option options
       \<lparr>addr = DefaultAddr, origin = [], certFile = [], keyFile = [],
        connections = NewConnections\<rparr>"

text \<open>
  A request: its headers (\<open>Header.Get\<close> gives the first value of a key, or the empty
  string), and whether it passes the other checks of the library's \<open>Upgrade\<close> (method,
  \<open>Upgrade\<close> and \<open>Connection\<close> headers, version, key).
\<close>

record Request =
  header :: "string \<rightharpoonup> string list"
  RemoteAddr :: string
  handshake :: bool

definition Header_Get :: "(string \<rightharpoonup> string list) \<Rightarrow> string \<Rightarrow> string" where
  "Header_Get hd' key =
     (case hd' key of
        None \<Rightarrow> []
      | Some [] \<Rightarrow> []
      | Some (v # _) \<Rightarrow> v)"

definition CheckOrigin :: "Server \<Rightarrow> Request \<Rightarrow> bool" where
  "CheckOrigin s r =
     (if origin s \<noteq> [] then origin s = Header_Get (header r) ''Origin'' else True)"

text \<open>
  \<open>s.upgrader.Upgrade(w, r, nil)\<close>: the library refuses a request that fails its
  handshake checks or the server's \<open>CheckOrigin\<close>; otherwise the new connection is \<open>ws\<close>.
\<close>

definition Upgrade :: "Server \<Rightarrow> Request \<Rightarrow> nat \<Rightarrow> error + nat" where
  "Upgrade s r ws =
     (if \<not> handshake r then Inl (ErrOther ''bad handshake'')
      else if \<not> CheckOrigin s r then Inl (ErrOther ''request origin not allowed'')
      else Inr ws)"

definition HandleWS :: "Server \<Rightarrow> Request \<Rightarrow> nat \<Rightarrow> heap \<Rightarrow> (Server \<times> heap) option" where
  "HandleWS s r ws h =
     (case Upgrade s r ws of
        Inl err \<Rightarrow> Some (s, h)
      | Inr ws' \<Rightarrow>
          (case Add ws' (connections s) of
             None \<Rightarrow> None
           | Some c \<Rightarrow> Some (s\<lparr>connections := c\<rparr>, h(ws' := (h ws')\<lparr>keepalive := True\<rparr>))))"

text \<open>One tick of the keepalive goroutine of \<open>HandleWS\<close>; it goes on after a failure.\<close>

definition ping_tick :: "nat \<Rightarrow> heap \<Rightarrow> heap" where
  "ping_tick ws h =
     (if \<not> keepalive (h ws) then h
      else case WriteControl ws h of
             (Some err, h') \<Rightarrow> snd (ws_Close ws h')
           | (None, h') \<Rightarrow> h')"

text \<open>The close handler of \<open>HandleWS\<close>: \<open>cancel()\<close>, then \<open>s.connections.Delete(ws)\<close>.\<close>

definition CloseHandler ::
  "nat \<Rightarrow> Server \<Rightarrow> heap \<Rightarrow> (error option \<times> Server \<times> heap) option" where
  "CloseHandler ws s h =
     (case Delete ws (connections s) (h(ws := (h ws)\<lparr>keepalive := False\<rparr>)) of
        None \<Rightarrow> None
      | Some (err, c, h') \<Rightarrow> Some (err, s\<lparr>connections := c\<rparr>, h'))"

text \<open>
  \<open>broadcast\<close>: the visitor starts one goroutine for the connection (\<open>go func() ...\<close>)
  and answers \<open>true\<close>; nobody waits for the goroutines. A started goroutine is the pair
  of its connection and its line; \<open>broadcast\<close> adds the new ones to those started and
  not yet run. When a goroutine runs (\<open>write_task\<close>) it writes the frame and closes the
  connection when the write fails.
\<close>

definition broadcast_visit ::
  "string \<Rightarrow> nat \<Rightarrow> (nat \<times> string) list \<Rightarrow> bool \<times> (nat \<times> string) list" where
  "broadcast_visit tx ws started = (True, started @ [(ws, tx)])"

definition write_task :: "string \<Rightarrow> nat \<Rightarrow> heap \<Rightarrow> heap" where
  "write_task tx ws h =
     (case WriteMessage ws tx h of
        (Some err, h') \<Rightarrow> snd (ws_Close ws h')
      | (None, h') \<Rightarrow> h')"

definition broadcast ::
  "Server \<Rightarrow> string \<Rightarrow> (nat \<times> string) list \<Rightarrow> (Server \<times> (nat \<times> string) list) option" where
  "broadcast s tx started =
     (case Iter (broadcast_visit tx) (connections s) started of
        None \<Rightarrow> None
      | Some (c, started') \<Rightarrow> Some (s\<lparr>connections := c\<rparr>, started'))"

text \<open>
  The first goroutine of \<open>Server.Start\<close> closes all connections once the context is
  done.
\<close>

definition Start_teardown :: "Server \<Rightarrow> heap \<Rightarrow> (Server \<times> heap) option" where
  "Start_teardown s h =
     (case Connections_Close (connections s) h of
        None \<Rightarrow> None
      | Some (c, h') \<Rightarrow> Some (s\<lparr>connections := c\<rparr>, h'))"

text \<open>
  The server at work: the server, the heap of connections and the goroutines started by
  \<open>broadcast\<close> that have not run yet. What happens next:
  \<^item> \<open>Line tx\<close>: the scanning goroutine of \<open>Server.Watch\<close> has the line \<open>tx\<close> and calls
    \<open>s.broadcast\<close>;
  \<^item> \<open>Go i\<close>: the \<open>i\<close>-th of the started goroutines runs, in whatever order the
    scheduler picks them; its write is one step (two writes to one connection that
    overlap in time are not part of the model);
  \<^item> \<open>Tick ws\<close>: the keepalive ticker of \<open>ws\<close> fires;
  \<^item> \<open>PeerClose ws\<close>: the close handler of \<open>ws\<close> runs;
  \<^item> \<open>Shutdown\<close>: the context is done.
\<close>

datatype sevent = Line string | Go nat | Tick nat | PeerClose nat | Shutdown

fun serve ::
  "sevent \<Rightarrow> Server \<times> heap \<times> (nat \<times> string) list
    \<Rightarrow> (Server \<times> heap \<times> (nat \<times> string) list) option" where
  "serve (Line tx) (s, h, started) =
     (case broadcast s tx started of
        None \<Rightarrow> None
      | Some (s', started') \<Rightarrow> Some (s', h, started'))"
| "serve (Go i) (s, h, started) =
     (if i < length started
      then Some (s, write_task (snd (started ! i)) (fst (started ! i)) h,
                 take i started @ drop (Suc i) started)
      else None)"
| "serve (Tick ws) (s, h, started) = Some (s, ping_tick ws h, started)"
| "serve (PeerClose ws) (s, h, started) =
     (case CloseHandler ws s h of
        None \<Rightarrow> None
      | Some (err, s', h') \<Rightarrow> Some (s', h', started))"
| "serve Shutdown (s, h, started) =
     (case Start_teardown s h of
        None \<Rightarrow> None
      | Some (s', h') \<Rightarrow> Some (s', h', started))"

fun serve_all ::
  "sevent list \<Rightarrow> Server \<times> heap \<times> (nat \<times> string) list
    \<Rightarrow> (Server \<times> heap \<times> (nat \<times> string) list) option" where
  "serve_all [] st = Some st"
| "serve_all (ev # evs) st =
     (case serve ev st of
        None \<Rightarrow> None
      | Some st' \<Rightarrow> serve_all evs st')"

definition settled ::
  "(Server \<times> heap \<times> (nat \<times> string) list) option \<Rightarrow> (Server \<times> heap) option" where
  "settled res = map_option (\<lambda>(s, h, started). (s, h)) res"

subsection \<open>Test data and observations\<close>

text \<open>
  A visitor that stops at the first connection, a connection just made, a heap of such
  connections, and what is read off a result.
\<close>

definition stop_visit :: "nat \<Rightarrow> unit \<Rightarrow> bool \<times> unit" where
  "stop_visit ws s = (False, s)"

definition fresh_Conn :: Conn where
  "fresh_Conn =
     \<lparr>alive = True, closes = 0, inbox = [], attempts = 0, pings = 0, keepalive = False\<rparr>"

definition fresh_heap :: heap where
  "fresh_heap = (\<lambda>ws. fresh_Conn)"

definition closes_after :: "nat \<Rightarrow> (Server \<times> heap) option \<Rightarrow> nat option" where
  "closes_after ws res = map_option (\<lambda>(s, h). closes (h ws)) res"

definition attempts_after :: "nat \<Rightarrow> (Server \<times> heap) option \<Rightarrow> nat option" where
  "attempts_after ws res = map_option (\<lambda>(s, h). attempts (h ws)) res"

definition inbox_after :: "nat \<Rightarrow> (Server \<times> heap) option \<Rightarrow> string list option" where
  "inbox_after ws res = map_option (\<lambda>(s, h). inbox (h ws)) res"

definition registry_after :: "(Server \<times> heap) option \<Rightarrow> nat list option" where
  "registry_after res = map_option (\<lambda>(s, h). registry (connections s)) res"

fun is_write_event :: "action \<Rightarrow> bool" where
  "is_write_event (FsEvent fs e) = Has e Write"
| "is_write_event a = False"

text \<open>The bytes the reads of a run can take at most: the sum of their buffer sizes.\<close>

fun read_budget :: "action list \<Rightarrow> int" where
  "read_budget [] = 0"
| "read_budget (FileRead fs n # acts) = int n + read_budget acts"
| "read_budget (a # acts) = read_budget acts"

section \<open>The reader: events\<close>

lemmas reader_defs =
  NewReader_def openFile_def os_Open_def os_Stat_def IsNotExist_def content_def
  File_Seek_def File_Read_def File_Close_def Has_def send_read_def handleEvent_def
  int64_def Read_attempt_def
  reader_Close_def Watch_return_def loop_next_def Server_Watch_def
  offset_after_def position_after_def watcher_after_def reads_after_def

lemma os_Stat_nonneg: "os_Stat fs name = Inr sz \<Longrightarrow> 0 \<le> sz"
  by (auto simp: os_Stat_def split: option.splits)

lemma handleEvent_offset:
  assumes "handleEvent fs e r = (err, r', k)"
  shows "offset r' = offset r
       \<or> (offset r' = 0 \<and> Has e Write
            \<and> (\<exists>sz. os_Stat fs (Name e) = Inr sz \<and> sz \<le> offset r))"
  using assms
  by (auto simp: handleEvent_def send_read_def Let_def
      split: if_splits sum.splits option.splits chan.splits)

lemma write_event_bound:
  assumes "handleEvent fs e r = (None, r', k)" and "Has e Write"
    and "os_Stat fs (Name e) = Inr sz"
  shows "offset r' \<le> sz"
  using assms os_Stat_nonneg [OF assms(3)]
  by (auto simp: handleEvent_def send_read_def Let_def
      split: if_splits sum.splits option.splits chan.splits)


lemma send_on_closed_reader_panics:
  assumes "Has e Write" and "\<not> Has e Remove" and "\<not> Has e Rename"
    and "os_Stat fs (Name e) = Inr sz" and "file' r = Some f" and "\<not> fclosed f"
    and "read r = ChanClosed" and "sz \<noteq> 0 \<or> offset r < sz"
  shows "fst (handleEvent fs e r) = Some ErrPanic \<and> snd (snd (handleEvent fs e r)) = 0"
  using assms by (auto simp: handleEvent_def send_read_def File_Seek_def)

text \<open>
  Claim C4. A write notification (an event with \<open>Write\<close> that has neither \<open>Remove\<close> nor
  \<open>Rename\<close>, which the handler tests first) whose stat gives the size \<open>sz\<close>, on a reader
  that has not been closed and has an open file: when \<open>sz \<le> offset\<close> the file is sought
  back to byte 0 and the offset becomes 0, with no signal when \<open>sz = 0\<close> and one signal
  otherwise; when \<open>offset < sz\<close> the reader is unchanged and one signal is sent. No
  error in either case. (On a closed reader the send panics:
  \<open>send_on_closed_reader_panics\<close>.)
\<close>

theorem handleEvent_write:
  assumes "Has e Write" and "\<not> Has e Remove" and "\<not> Has e Rename"
    and "os_Stat fs (Name e) = Inr sz" and "file' r = Some f" and "\<not> fclosed f"
    and "read r = ChanOpen"
  shows "handleEvent fs e r =
     (if sz \<le> offset r
      then (None, r\<lparr>file' := Some (f\<lparr>pos := 0\<rparr>), offset := 0\<rparr>, if sz = 0 then 0 else 1)
      else (None, r, 1))"
  using assms by (simp add: handleEvent_def send_read_def File_Seek_def)

text \<open>
  The three cases at a file \<open>/log\<close> and a reader at offset 5, position 5: the file has
  grown to 7 bytes (one signal, nothing moves), was cut to 3 bytes (reset, one signal),
  was emptied (reset, no signal).
\<close>

theorem handleEvent_write_witness:
  "handleEvent \<lparr>names = [''/log'' \<mapsto> 1], inodes = [1 \<mapsto> ''abcdefg'']\<rparr>
     \<lparr>Name = ''/log'', Op = {Write}\<rparr>
     \<lparr>offset = 5, seekEnd = False, file' = Some \<lparr>ino = 1, pos = 5, fclosed = False\<rparr>,
      read = ChanOpen\<rparr>
   = (None,
      \<lparr>offset = 5, seekEnd = False, file' = Some \<lparr>ino = 1, pos = 5, fclosed = False\<rparr>,
       read = ChanOpen\<rparr>, 1)
   \<and> handleEvent \<lparr>names = [''/log'' \<mapsto> 1], inodes = [1 \<mapsto> ''abc'']\<rparr>
     \<lparr>Name = ''/log'', Op = {Write}\<rparr>
     \<lparr>offset = 5, seekEnd = False, file' = Some \<lparr>ino = 1, pos = 5, fclosed = False\<rparr>,
      read = ChanOpen\<rparr>
   = (None,
      \<lparr>offset = 0, seekEnd = False, file' = Some \<lparr>ino = 1, pos = 0, fclosed = False\<rparr>,
       read = ChanOpen\<rparr>, 1)
   \<and> handleEvent \<lparr>names = [''/log'' \<mapsto> 1], inodes = [1 \<mapsto> []]\<rparr>
     \<lparr>Name = ''/log'', Op = {Write}\<rparr>
     \<lparr>offset = 5, seekEnd = False, file' = Some \<lparr>ino = 1, pos = 5, fclosed = False\<rparr>,
      read = ChanOpen\<rparr>
   = (None,
      \<lparr>offset = 0, seekEnd = False, file' = Some \<lparr>ino = 1, pos = 0, fclosed = False\<rparr>,
       read = ChanOpen\<rparr>, 0)"
proof -
  let ?e = "\<lparr>Name = ''/log'', Op = {Write}\<rparr>"
  let ?f = "\<lparr>ino = 1, pos = 5, fclosed = False\<rparr>"
  let ?r = "\<lparr>offset = 5, seekEnd = False, file' = Some ?f, read = ChanOpen\<rparr>"
  let ?fs = "\<lambda>d. \<lparr>names = [''/log'' \<mapsto> 1], inodes = [1 \<mapsto> d]\<rparr>"
  have e: "Has ?e Write" "\<not> Has ?e Remove" "\<not> Has ?e Rename"
    by (simp_all add: Has_def)
  have f: "file' ?r = Some ?f" "\<not> fclosed ?f" "read ?r = ChanOpen"
    by simp_all
  have s7: "os_Stat (?fs ''abcdefg'') (Name ?e) = Inr 7"
    and s3: "os_Stat (?fs ''abc'') (Name ?e) = Inr 3"
    and s0: "os_Stat (?fs []) (Name ?e) = Inr 0"
    by (simp_all add: os_Stat_def content_def)
  show ?thesis
    using handleEvent_write [OF e s7 f] handleEvent_write [OF e s3 f]
      handleEvent_write [OF e s0 f]
    by simp
qed

text \<open>
  Claim C7. In the event loop, for an event on the watched path: a remove event fails
  with \<open>ErrFileDeleted\<close> when the path does not exist and with \<open>ErrFileOverwritten\<close> when
  it exists again; a rename event (not also a remove, which is tested first) fails with
  \<open>ErrFileRenamed\<close>. After \<open>ErrFileDeleted\<close> and \<open>ErrFileRenamed\<close> the loop of
  \<open>Server.Watch\<close> returns the error and the reader is closed; after
  \<open>ErrFileOverwritten\<close> it calls \<open>r.Watch\<close> again, and that is the only result of
  \<open>r.Watch\<close> after which it does.
\<close>

theorem handleEvent_remove_rename:
  assumes "watcher w = Watching" and "\<not> panicked w" and "Name e = name"
  shows "(Has e Remove \<and> names fs name = None \<longrightarrow>
            handleEvent fs e (rd w) = (Some ErrFileDeleted, rd w, 0)
          \<and> (\<exists>w'. step name (FsEvent fs e) w = Some w'
                \<and> watcher w' = Returned (Some ErrFileDeleted) \<and> read (rd w') = ChanClosed))
       \<and> (Has e Remove \<and> names fs name \<noteq> None \<longrightarrow>
            handleEvent fs e (rd w) = (Some ErrFileOverwritten, rd w, 0)
          \<and> (\<exists>w'. step name (FsEvent fs e) w = Some w'
                \<and> watcher w' = Calling \<and> read (rd w') = read (rd w)))
       \<and> (Has e Rename \<and> \<not> Has e Remove \<longrightarrow>
            handleEvent fs e (rd w) = (Some ErrFileRenamed, rd w, 0)
          \<and> (\<exists>w'. step name (FsEvent fs e) w = Some w'
                \<and> watcher w' = Returned (Some ErrFileRenamed) \<and> read (rd w') = ChanClosed))
       \<and> (\<forall>err. (watcher (Watch_return err w) = Calling) = (err = Some ErrFileOverwritten))"
proof -
  have del: "Has e Remove \<and> names fs name = None \<Longrightarrow>
      handleEvent fs e (rd w) = (Some ErrFileDeleted, rd w, 0)"
    using assms(3) by (auto simp: handleEvent_def os_Stat_def IsNotExist_def)
  have ovw: "Has e Remove \<and> names fs name \<noteq> None \<Longrightarrow>
      handleEvent fs e (rd w) = (Some ErrFileOverwritten, rd w, 0)"
    using assms(3) by (auto simp: handleEvent_def os_Stat_def)
  have ren: "Has e Rename \<and> \<not> Has e Remove \<Longrightarrow>
      handleEvent fs e (rd w) = (Some ErrFileRenamed, rd w, 0)"
    by (simp add: handleEvent_def)
  have st: "handleEvent fs e (rd w) = (Some err, rd w, 0) \<Longrightarrow> err \<noteq> ErrPanic \<Longrightarrow>
      step name (FsEvent fs e) w = Some (Watch_return (Some err) w)" for err
    using assms by simp
  have ret: "watcher (Watch_return err w) = (if err = Some ErrFileOverwritten then Calling
      else Returned err)" for err
    by (simp add: Watch_return_def loop_next_def)
  have cl: "err \<noteq> Some ErrFileOverwritten \<Longrightarrow> read (rd (Watch_return err w)) = ChanClosed"
    for err
    by (simp add: Watch_return_def loop_next_def reader_Close_def)
  have op: "read (rd (Watch_return (Some ErrFileOverwritten) w)) = read (rd w)"
    by (simp add: Watch_return_def loop_next_def)
  show ?thesis
    using del ovw ren st ret cl op by simp
qed

theorem handleEvent_remove_rename_witness:
  "step ''/log'' (FsEvent \<lparr>names = Map.empty, inodes = [1 \<mapsto> ''a'']\<rparr>
      \<lparr>Name = ''/log'', Op = {Remove}\<rparr>)
     \<lparr>rd = \<lparr>offset = 1, seekEnd = True, file' = Some \<lparr>ino = 1, pos = 1, fclosed = False\<rparr>,
            read = ChanOpen\<rparr>,
      watcher = Watching, consumer = Waiting, out = [], panicked = False\<rparr>
   = Some \<lparr>rd = \<lparr>offset = 1, seekEnd = True,
                 file' = Some \<lparr>ino = 1, pos = 1, fclosed = True\<rparr>, read = ChanClosed\<rparr>,
           watcher = Returned (Some ErrFileDeleted), consumer = Waiting, out = [],
           panicked = False\<rparr>
   \<and> step ''/log'' (FsEvent \<lparr>names = [''/log'' \<mapsto> 2], inodes = [1 \<mapsto> ''a'', 2 \<mapsto> []]\<rparr>
      \<lparr>Name = ''/log'', Op = {Remove}\<rparr>)
     \<lparr>rd = \<lparr>offset = 1, seekEnd = True, file' = Some \<lparr>ino = 1, pos = 1, fclosed = False\<rparr>,
            read = ChanOpen\<rparr>,
      watcher = Watching, consumer = Waiting, out = [], panicked = False\<rparr>
   = Some \<lparr>rd = \<lparr>offset = 1, seekEnd = True,
                 file' = Some \<lparr>ino = 1, pos = 1, fclosed = True\<rparr>, read = ChanOpen\<rparr>,
           watcher = Calling, consumer = Waiting, out = [], panicked = False\<rparr>
   \<and> step ''/log'' (FsEvent \<lparr>names = Map.empty, inodes = [1 \<mapsto> ''a'']\<rparr>
      \<lparr>Name = ''/log'', Op = {Rename}\<rparr>)
     \<lparr>rd = \<lparr>offset = 1, seekEnd = True, file' = Some \<lparr>ino = 1, pos = 1, fclosed = False\<rparr>,
            read = ChanOpen\<rparr>,
      watcher = Watching, consumer = Waiting, out = [], panicked = False\<rparr>
   = Some \<lparr>rd = \<lparr>offset = 1, seekEnd = True,
                 file' = Some \<lparr>ino = 1, pos = 1, fclosed = True\<rparr>, read = ChanClosed\<rparr>,
           watcher = Returned (Some ErrFileRenamed), consumer = Waiting, out = [],
           panicked = False\<rparr>"
proof -
  let ?r = "\<lparr>offset = 1, seekEnd = True, file' = Some \<lparr>ino = 1, pos = 1, fclosed = False\<rparr>,
      read = ChanOpen\<rparr>"
  let ?w = "\<lparr>rd = ?r, watcher = Watching, consumer = Waiting, out = [], panicked = False\<rparr>"
  let ?gone = "\<lparr>names = Map.empty, inodes = [1 \<mapsto> ''a'']\<rparr>"
  let ?again = "\<lparr>names = [''/log'' \<mapsto> 2], inodes = [1 \<mapsto> ''a'', 2 \<mapsto> []]\<rparr>"
  let ?rm = "\<lparr>Name = ''/log'', Op = {Remove}\<rparr>"
  let ?mv = "\<lparr>Name = ''/log'', Op = {Rename}\<rparr>"
  have w: "watcher ?w = Watching" "\<not> panicked ?w"
    by simp_all
  have rm: "Name ?rm = ''/log''" "Has ?rm Remove"
    and mv: "Name ?mv = ''/log''" "Has ?mv Rename" "\<not> Has ?mv Remove"
    by (simp_all add: Has_def)
  have fs: "names ?gone ''/log'' = None" "names ?again ''/log'' \<noteq> None"
    by simp_all
  show ?thesis
    using handleEvent_remove_rename [OF w rm(1), of ?gone]
      handleEvent_remove_rename [OF w rm(1), of ?again]
      handleEvent_remove_rename [OF w mv(1), of ?gone] rm mv fs
    by (simp add: Watch_return_def loop_next_def reader_Close_def File_Close_def)
qed

section \<open>The reader: Read\<close>

lemma Read_attempt_cases:
  assumes "Read_attempt r n err = Some ((m, e), r')"
  shows "(0 < m \<and> e = None \<and> offset r' = int64 (offset r + int m) \<and> m = n)
       \<or> (e = err \<and> e \<noteq> None \<and> e \<noteq> Some EOF \<and> r' = r \<and> m = n)"
  using assms by (auto simp: Read_attempt_def split: if_splits)

lemma Read_cases:
  assumes "Read r ws = Some ((n, err), r')"
  shows "(0 < n \<and> err = None \<and> offset r' = int64 (offset r + int n))
       \<or> (\<exists>e. err = Some e \<and> e \<noteq> EOF \<and> Signal n (Some e) \<in> set ws \<and> r' = r)
       \<or> (n = 0 \<and> err = Some EOF \<and> Closed \<in> set ws \<and> r' = r)"
  using assms
proof (induction r ws rule: Read.induct)
  case (1 r)
  then show ?case by simp
next
  case (2 r ws)
  then show ?case by auto
next
  case (3 r m e ws)
  show ?case
  proof (cases "Read_attempt r m e")
    case None
    with 3 show ?thesis by auto
  next
    case (Some res)
    with 3 have "Read_attempt r m e = Some ((n, err), r')"
      by simp
    from Read_attempt_cases [OF this] show ?thesis
      by auto
  qed
qed

lemma Read_blocked:
  assumes "\<forall>w \<in> set ws. w = Signal 0 None \<or> w = Signal 0 (Some EOF)"
  shows "Read r ws = None"
  using assms by (induction ws) (auto simp: Read_attempt_def)

lemma Read_after_Closed:
  assumes "\<forall>w \<in> set ws. w = Signal 0 None \<or> w = Signal 0 (Some EOF)"
  shows "Read r (ws @ Closed # rest) = Some ((0, Some EOF), r)"
  using assms by (induction ws) (auto simp: Read_attempt_def)

lemma int64_in_range: "is_int64 x \<Longrightarrow> int64 x = x"
  by (simp add: int64_def is_int64_def)

text \<open>
  Claim C5. Whatever \<open>Read\<close> returns is (a) \<open>n > 0\<close> bytes and no error, the offset
  advanced by exactly \<open>n\<close> (the \<open>int64\<close> sum, which is the sum itself unless it
  overflows); or (b) an error of the file's \<open>Read\<close> that is not
  \<open>io.EOF\<close>; or (c) no byte and \<open>io.EOF\<close>, after a receive found the channel closed.
  So it never returns no byte and no error. As long as every attempt yields no byte
  (with \<open>io.EOF\<close> or without error) and the channel is open, \<open>Read\<close> does not return:
  it waits for the next signal; and closing the channel then makes it return \<open>io.EOF\<close>.
\<close>

theorem Read_returns:
  "(Read r ws = Some ((n, err), r') \<longrightarrow>
      ((0 < n \<and> err = None \<and> offset r' = int64 (offset r + int n)
          \<and> (is_int64 (offset r + int n) \<longrightarrow> offset r' = offset r + int n))
       \<or> (\<exists>e. err = Some e \<and> e \<noteq> EOF \<and> Signal n (Some e) \<in> set ws \<and> r' = r)
       \<or> (n = 0 \<and> err = Some EOF \<and> Closed \<in> set ws \<and> r' = r))
      \<and> \<not> (n = 0 \<and> err = None))
   \<and> ((\<forall>w \<in> set ws. w = Signal 0 None \<or> w = Signal 0 (Some EOF)) \<longrightarrow>
        Read r ws = None \<and> Read r (ws @ Closed # rest) = Some ((0, Some EOF), r))"
proof -
  have ret: "((0 < n \<and> err = None \<and> offset r' = int64 (offset r + int n)
          \<and> (is_int64 (offset r + int n) \<longrightarrow> offset r' = offset r + int n))
       \<or> (\<exists>e. err = Some e \<and> e \<noteq> EOF \<and> Signal n (Some e) \<in> set ws \<and> r' = r)
       \<or> (n = 0 \<and> err = Some EOF \<and> Closed \<in> set ws \<and> r' = r))
      \<and> \<not> (n = 0 \<and> err = None)"
    if "Read r ws = Some ((n, err), r')"
    using Read_cases [OF that] by (auto simp: int64_in_range)
  show ?thesis
    using ret Read_blocked [of ws r] Read_after_Closed [of ws r rest]
    by blast
qed

text \<open>
  A reader at offset 10: two empty attempts and then 3 bytes; an empty attempt and then
  a failing file; the channel closed while waiting; and two empty attempts with nothing
  after them.
\<close>

theorem Read_returns_witness:
  "Read \<lparr>offset = 10, seekEnd = True, file' = None, read = ChanOpen\<rparr>
     [Signal 0 (Some EOF), Signal 0 None, Signal 3 None, Closed]
   = Some ((3, None), \<lparr>offset = 13, seekEnd = True, file' = None, read = ChanOpen\<rparr>)
   \<and> Read \<lparr>offset = 10, seekEnd = True, file' = None, read = ChanOpen\<rparr>
     [Signal 0 (Some EOF), Signal 0 (Some ErrClosed)]
   = Some ((0, Some ErrClosed), \<lparr>offset = 10, seekEnd = True, file' = None, read = ChanOpen\<rparr>)
   \<and> Read \<lparr>offset = 10, seekEnd = True, file' = None, read = ChanOpen\<rparr>
     [Signal 0 (Some EOF), Signal 0 None]
   = None
   \<and> Read \<lparr>offset = 10, seekEnd = True, file' = None, read = ChanOpen\<rparr>
     ([Signal 0 (Some EOF), Signal 0 None] @ Closed # [Signal 3 None])
   = Some ((0, Some EOF), \<lparr>offset = 10, seekEnd = True, file' = None, read = ChanOpen\<rparr>)"
proof -
  let ?r = "\<lparr>offset = 10, seekEnd = True, file' = None, read = ChanOpen\<rparr>"
  let ?idle = "[Signal 0 (Some EOF), Signal 0 None]"
  have a: "Read ?r (?idle @ [Signal 3 None, Closed]) = Some ((3, None), ?r\<lparr>offset := 13\<rparr>)"
    by (simp add: Read_attempt_def int64_def)
  have b: "Read ?r [Signal 0 (Some EOF), Signal 0 (Some ErrClosed)]
      = Some ((0, Some ErrClosed), ?r)"
    by (simp add: Read_attempt_def)
  have idle: "\<forall>w \<in> set ?idle. w = Signal 0 None \<or> w = Signal 0 (Some EOF)"
    by simp
  have rng: "is_int64 (offset ?r + int 3)"
    by (simp add: is_int64_def)
  show ?thesis
    using a b idle rng
      Read_returns [of ?r "?idle @ [Signal 3 None, Closed]" 3 None "?r\<lparr>offset := 13\<rparr>"]
      Read_returns [of ?r "[Signal 0 (Some EOF), Signal 0 (Some ErrClosed)]" 0
        "Some ErrClosed" ?r]
      Read_returns [of ?r ?idle 0 None ?r "[Signal 3 None]"]
    by simp
qed

section \<open>Server.Watch: rotation and the offset\<close>

lemma Watch_return_offset: "offset (rd (Watch_return err w)) = offset (rd w)"
  by (simp add: Watch_return_def loop_next_def reader_Close_def)

lemma loop_next_offset: "offset (rd (loop_next err w)) = offset (rd w)"
  by (simp add: loop_next_def reader_Close_def)

lemma File_Read_length:
  assumes "File_Read fs f n = ((d, err), f1)"
  shows "length d \<le> n"
  using assms by (auto simp: File_Read_def Let_def split: if_splits)

lemma FsEvent_step_offset:
  assumes "step name (FsEvent fs e) w = Some w'" and "Name e = name"
    and "handleEvent fs e (rd w) = (err, r, k)"
  shows "offset (rd w') = offset r"
  using assms
  by (cases err) (auto simp: Watch_return_offset split: if_splits)

text \<open>
  A step that is not a read leaves the offset or resets it; a read into a buffer of
  \<open>n\<close> bytes adds at most \<open>n\<close>, unless the \<open>int64\<close> overflows.
\<close>

lemma step_offset:
  assumes "step name a w = Some w'" and "is_int64 (offset (rd w))"
    and "\<forall>fs n. a = FileRead fs n \<longrightarrow> offset (rd w) + int n < 2 ^ 63"
  shows "offset (rd w) \<le> offset (rd w')
       \<or> (offset (rd w') = 0
            \<and> (\<exists>fs e sz. a = FsEvent fs e \<and> Name e = name \<and> Has e Write
                  \<and> os_Stat fs name = Inr sz \<and> sz \<le> offset (rd w)))"
proof (cases a)
  case (CallWatch fs werr)
  with assms(1) show ?thesis
    by (auto simp: Watch_return_offset loop_next_offset
        split: if_splits sum.splits option.splits)
next
  case (FsEvent fs e)
  show ?thesis
  proof (cases "Name e = name")
    case False
    with assms(1) FsEvent show ?thesis
      by (auto split: if_splits)
  next
    case True
    obtain err r k where h: "handleEvent fs e (rd w) = (err, r, k)"
      by (cases "handleEvent fs e (rd w)") auto
    have "offset (rd w') = offset r"
      using assms(1) FsEvent True h by (auto intro: FsEvent_step_offset)
    with handleEvent_offset [OF h] True FsEvent show ?thesis
      by auto
  qed
next
  case (FsError werr)
  with assms(1) show ?thesis
    by (auto simp: Watch_return_offset split: if_splits option.splits)
next
  case CtxDone
  with assms(1) show ?thesis
    by (auto simp: Watch_return_offset split: if_splits)
next
  case Deliver
  with assms(1) show ?thesis
    by (auto split: if_splits)
next
  case (FileRead fs n)
  have bound: "offset (rd w) + int n < 2 ^ 63"
    using assms(3) FileRead by simp
  have "offset (rd w) \<le> offset (rd w')"
  proof (cases "file' (rd w)")
    case None
    with assms(1) FileRead show ?thesis
      by (auto split: if_splits)
  next
    case (Some f)
    obtain d err f1 where fr: "File_Read fs f n = ((d, err), f1)"
      by (cases "File_Read fs f n") auto
    have len: "int (length d) \<le> int n"
      using File_Read_length [OF fr] by simp
    have "is_int64 (offset (rd w) + int (length d))"
      using assms(2) bound len by (simp add: is_int64_def)
    then have "int64 (offset (rd w) + int (length d)) = offset (rd w) + int (length d)"
      by (rule int64_in_range)
    with assms(1) FileRead Some fr show ?thesis
      by (auto simp: Read_attempt_def split: if_splits)
  qed
  then show ?thesis
    by simp
next
  case RecvClosed
  with assms(1) show ?thesis
    by (auto split: if_splits)
qed

lemma step_offset_budget:
  assumes "step name a w = Some w'" and "\<not> is_write_event a"
    and "is_int64 (offset (rd w))" and "offset (rd w) + read_budget [a] < 2 ^ 63"
  shows "offset (rd w) \<le> offset (rd w') \<and> offset (rd w') \<le> offset (rd w) + read_budget [a]"
proof (cases a)
  case (CallWatch fs werr)
  with assms(1) show ?thesis
    by (auto simp: Watch_return_offset loop_next_offset
        split: if_splits sum.splits option.splits)
next
  case (FsEvent fs e)
  show ?thesis
  proof (cases "Name e = name")
    case False
    with assms(1) FsEvent show ?thesis
      by (auto split: if_splits)
  next
    case True
    obtain err r k where h: "handleEvent fs e (rd w) = (err, r, k)"
      by (cases "handleEvent fs e (rd w)") auto
    have "offset (rd w') = offset r"
      using assms(1) FsEvent True h by (auto intro: FsEvent_step_offset)
    with handleEvent_offset [OF h] assms(2) FsEvent show ?thesis
      by auto
  qed
next
  case (FsError werr)
  with assms(1) show ?thesis
    by (auto simp: Watch_return_offset split: if_splits option.splits)
next
  case CtxDone
  with assms(1) show ?thesis
    by (auto simp: Watch_return_offset split: if_splits)
next
  case Deliver
  with assms(1) show ?thesis
    by (auto split: if_splits)
next
  case (FileRead fs n)
  have bound: "offset (rd w) + int n < 2 ^ 63"
    using assms(4) FileRead by simp
  show ?thesis
  proof (cases "file' (rd w)")
    case None
    with assms(1) FileRead show ?thesis
      by (auto split: if_splits)
  next
    case (Some f)
    obtain d err f1 where fr: "File_Read fs f n = ((d, err), f1)"
      by (cases "File_Read fs f n") auto
    have len: "int (length d) \<le> int n"
      using File_Read_length [OF fr] by simp
    have "is_int64 (offset (rd w) + int (length d))"
      using assms(3) bound len by (simp add: is_int64_def)
    then have "int64 (offset (rd w) + int (length d)) = offset (rd w) + int (length d)"
      by (rule int64_in_range)
    with assms(1) FileRead Some fr len show ?thesis
      by (auto simp: Read_attempt_def split: if_splits)
  qed
next
  case RecvClosed
  with assms(1) show ?thesis
    by (auto split: if_splits)
qed

lemma read_budget_Cons: "read_budget (a # acts) = read_budget [a] + read_budget acts"
  by (cases a) simp_all

lemma read_budget_nonneg: "0 \<le> read_budget acts"
  by (induction acts rule: read_budget.induct) simp_all

lemma run_offset_mono:
  assumes "run name acts w = Some w'" and "\<forall>a \<in> set acts. \<not> is_write_event a"
    and "is_int64 (offset (rd w))" and "offset (rd w) + read_budget acts < 2 ^ 63"
  shows "offset (rd w) \<le> offset (rd w')"
  using assms
proof (induction acts arbitrary: w)
  case Nil
  then show ?case by simp
next
  case (Cons a acts)
  then obtain w1 where s: "step name a w = Some w1" and r: "run name acts w1 = Some w'"
    by (auto split: option.splits)
  have tot: "offset (rd w) + read_budget [a] + read_budget acts < 2 ^ 63"
    using Cons.prems(4) read_budget_Cons [of a acts] by simp
  have one: "offset (rd w) + read_budget [a] < 2 ^ 63"
    using tot read_budget_nonneg [of acts] by simp
  have nw: "\<not> is_write_event a"
    using Cons.prems(2) by simp
  from step_offset_budget [OF s nw Cons.prems(3) one]
  have lo: "offset (rd w) \<le> offset (rd w1)"
    and hi: "offset (rd w1) \<le> offset (rd w) + read_budget [a]"
    by simp_all
  have in1: "is_int64 (offset (rd w1))"
    using lo hi one Cons.prems(3) by (simp add: is_int64_def)
  have b1: "offset (rd w1) + read_budget acts < 2 ^ 63"
    using hi tot by simp
  have "offset (rd w1) \<le> offset (rd w')"
    using Cons.IH [OF r _ in1 b1] Cons.prems(2) by simp
  with lo show ?case
    by simp
qed






text \<open>
  Where reading goes on after a rotation. \<open>Server.Watch\<close> on an empty \<open>/log\<close>: a line
  is appended and read (offset 2); the file is removed and made again with the line
  \<open>c\<close>; the second call of \<open>r.Watch\<close> opens the new file by the rule of \<open>openFile\<close>, at
  the reader's offset, byte 2, and after one more line \<open>d\<close> is appended the reads are
  the first line and \<open>d\<close>.
\<close>

lemma reopen_position_example:
  "position_after (run ''/log''
     [CallWatch \<lparr>names = [''/log'' \<mapsto> 1], inodes = [1 \<mapsto> []]\<rparr> None,
      FsEvent \<lparr>names = [''/log'' \<mapsto> 1], inodes = [1 \<mapsto> ''a\<newline>'']\<rparr>
        \<lparr>Name = ''/log'', Op = {Write}\<rparr>,
      Deliver,
      FileRead \<lparr>names = [''/log'' \<mapsto> 1], inodes = [1 \<mapsto> ''a\<newline>'']\<rparr> 4096,
      FsEvent \<lparr>names = [''/log'' \<mapsto> 2], inodes = [1 \<mapsto> ''a\<newline>'', 2 \<mapsto> ''c\<newline>'']\<rparr>
        \<lparr>Name = ''/log'', Op = {Remove}\<rparr>,
      CallWatch \<lparr>names = [''/log'' \<mapsto> 2], inodes = [1 \<mapsto> ''a\<newline>'', 2 \<mapsto> ''c\<newline>'']\<rparr>
        None]
     Server_Watch) = Some 2
   \<and> reads_after (run ''/log''
     [CallWatch \<lparr>names = [''/log'' \<mapsto> 1], inodes = [1 \<mapsto> []]\<rparr> None,
      FsEvent \<lparr>names = [''/log'' \<mapsto> 1], inodes = [1 \<mapsto> ''a\<newline>'']\<rparr>
        \<lparr>Name = ''/log'', Op = {Write}\<rparr>,
      Deliver,
      FileRead \<lparr>names = [''/log'' \<mapsto> 1], inodes = [1 \<mapsto> ''a\<newline>'']\<rparr> 4096,
      FsEvent \<lparr>names = [''/log'' \<mapsto> 2], inodes = [1 \<mapsto> ''a\<newline>'', 2 \<mapsto> ''c\<newline>'']\<rparr>
        \<lparr>Name = ''/log'', Op = {Remove}\<rparr>,
      CallWatch \<lparr>names = [''/log'' \<mapsto> 2], inodes = [1 \<mapsto> ''a\<newline>'', 2 \<mapsto> ''c\<newline>'']\<rparr>
        None,
      FsEvent
        \<lparr>names = [''/log'' \<mapsto> 2], inodes = [1 \<mapsto> ''a\<newline>'', 2 \<mapsto> ''c\<newline>d\<newline>'']\<rparr>
        \<lparr>Name = ''/log'', Op = {Write}\<rparr>,
      Deliver,
      FileRead
        \<lparr>names = [''/log'' \<mapsto> 2], inodes = [1 \<mapsto> ''a\<newline>'', 2 \<mapsto> ''c\<newline>d\<newline>'']\<rparr>
        4096]
     Server_Watch) = [''a\<newline>'', ''d\<newline>'']"
  by (simp add: reader_defs)


text \<open>
  Claim C9, as the code has it. Every step of a session leaves the offset where it was
  or greater, except a write event on the watched path whose stat size is at most the
  offset, which sets it to 0; this as long as the \<open>int64\<close> does not overflow, that is,
  for a read, as long as the offset plus the size of the buffer stays below \<open>2 ^ 63\<close>.
  Right after a write event handled without error the offset is at most the size that
  event's stat saw. Over any run without write events whose reads cannot overflow the
  offset, the offset does not decrease.
\<close>

theorem offset_monotone:
  "(step name a w = Some w' \<and> is_int64 (offset (rd w))
      \<and> (\<forall>fs n. a = FileRead fs n \<longrightarrow> offset (rd w) + int n < 2 ^ 63) \<longrightarrow>
      offset (rd w) \<le> offset (rd w')
      \<or> (offset (rd w') = 0
           \<and> (\<exists>fs e sz. a = FsEvent fs e \<and> Name e = name \<and> Has e Write
                 \<and> os_Stat fs name = Inr sz \<and> sz \<le> offset (rd w))))
   \<and> (handleEvent fs e r = (None, r', k) \<and> Has e Write \<and> os_Stat fs (Name e) = Inr sz \<longrightarrow>
        offset r' \<le> sz)
   \<and> (run name acts w = Some w'' \<and> (\<forall>a \<in> set acts. \<not> is_write_event a)
        \<and> is_int64 (offset (rd w)) \<and> offset (rd w) + read_budget acts < 2 ^ 63 \<longrightarrow>
        offset (rd w) \<le> offset (rd w''))"
proof -
  have one: "step name a w = Some w' \<and> is_int64 (offset (rd w))
      \<and> (\<forall>fs n. a = FileRead fs n \<longrightarrow> offset (rd w) + int n < 2 ^ 63) \<Longrightarrow>
      offset (rd w) \<le> offset (rd w')
      \<or> (offset (rd w') = 0
           \<and> (\<exists>fs e sz. a = FsEvent fs e \<and> Name e = name \<and> Has e Write
                 \<and> os_Stat fs name = Inr sz \<and> sz \<le> offset (rd w)))"
    using step_offset [of name a w w'] by blast
  have two: "handleEvent fs e r = (None, r', k) \<and> Has e Write
      \<and> os_Stat fs (Name e) = Inr sz \<Longrightarrow> offset r' \<le> sz"
    using write_event_bound [of fs e r r' k sz] by blast
  have three: "run name acts w = Some w'' \<and> (\<forall>a \<in> set acts. \<not> is_write_event a)
      \<and> is_int64 (offset (rd w)) \<and> offset (rd w) + read_budget acts < 2 ^ 63 \<Longrightarrow>
      offset (rd w) \<le> offset (rd w'')"
    using run_offset_mono [of name acts w w''] by blast
  from one two three show ?thesis
    by blast
qed

text \<open>
  A reader that was opened at the end of a file of 2 bytes, woken by a write event
  that saw 5 bytes: the read moves the offset from 0 to 3; a later write event at a
  file cut to 1 byte sets it to 0, which is at most the size seen.
\<close>

theorem offset_monotone_witness:
  "run ''/log''
     [Deliver, FileRead \<lparr>names = [''/log'' \<mapsto> 1], inodes = [1 \<mapsto> ''abcde'']\<rparr> 4096]
     \<lparr>rd = \<lparr>offset = 0, seekEnd = True,
            file' = Some \<lparr>ino = 1, pos = 2, fclosed = False\<rparr>, read = ChanOpen\<rparr>,
      watcher = Sending, consumer = Waiting, out = [], panicked = False\<rparr>
   = Some \<lparr>rd = \<lparr>offset = 3, seekEnd = True,
                 file' = Some \<lparr>ino = 1, pos = 5, fclosed = False\<rparr>, read = ChanOpen\<rparr>,
           watcher = Watching, consumer = Waiting, out = [(''cde'', None)],
           panicked = False\<rparr>
   \<and> step ''/log''
     (FsEvent \<lparr>names = [''/log'' \<mapsto> 1], inodes = [1 \<mapsto> ''x'']\<rparr>
        \<lparr>Name = ''/log'', Op = {Write}\<rparr>)
     \<lparr>rd = \<lparr>offset = 3, seekEnd = True,
            file' = Some \<lparr>ino = 1, pos = 5, fclosed = False\<rparr>, read = ChanOpen\<rparr>,
      watcher = Watching, consumer = Waiting, out = [(''cde'', None)], panicked = False\<rparr>
   = Some \<lparr>rd = \<lparr>offset = 0, seekEnd = True,
                 file' = Some \<lparr>ino = 1, pos = 0, fclosed = False\<rparr>, read = ChanOpen\<rparr>,
           watcher = Sending, consumer = Waiting, out = [(''cde'', None)],
           panicked = False\<rparr>
   \<and> os_Stat \<lparr>names = [''/log'' \<mapsto> 1], inodes = [1 \<mapsto> ''x'']\<rparr> ''/log'' = Inr 1
   \<and> is_int64 0 \<and> (0::int) + read_budget
        [Deliver, FileRead \<lparr>names = [''/log'' \<mapsto> 1], inodes = [1 \<mapsto> ''abcde'']\<rparr> 4096]
        < 2 ^ 63
   \<and> (0::int) \<le> 3 \<and> (0::int) \<le> 1"
proof -
  let ?fs = "\<lambda>d. \<lparr>names = [''/log'' \<mapsto> 1], inodes = [1 \<mapsto> d]\<rparr>"
  let ?e = "\<lparr>Name = ''/log'', Op = {Write}\<rparr>"
  let ?r = "\<lambda>n p. \<lparr>offset = n, seekEnd = True,
      file' = Some \<lparr>ino = 1, pos = p, fclosed = False\<rparr>, read = ChanOpen\<rparr>"
  let ?w1 = "\<lparr>rd = ?r 0 2, watcher = Sending, consumer = Waiting, out = [], panicked = False\<rparr>"
  let ?wk = "\<lparr>rd = ?r 0 2, watcher = Watching, consumer = Woken, out = [], panicked = False\<rparr>"
  let ?w2 = "\<lparr>rd = ?r 3 5, watcher = Watching, consumer = Waiting, out = [(''cde'', None)],
      panicked = False\<rparr>"
  let ?w3 = "\<lparr>rd = ?r 0 0, watcher = Sending, consumer = Waiting, out = [(''cde'', None)],
      panicked = False\<rparr>"
  let ?rd = "FileRead (?fs ''abcde'') 4096"
  let ?acts = "[Deliver, ?rd]"
  have r2: "run ''/log'' ?acts ?w1 = Some ?w2"
    by (simp add: reader_defs)
  have nw: "\<forall>a \<in> set ?acts. \<not> is_write_event a"
    by simp
  have rng: "is_int64 (offset (rd ?w1))" "is_int64 (offset (rd ?wk))"
    "is_int64 (offset (rd ?w2))" "offset (rd ?w1) + read_budget ?acts < 2 ^ 63"
    "\<forall>fs n. ?rd = FileRead fs n \<longrightarrow> offset (rd ?wk) + int n < 2 ^ 63"
    by (simp_all add: is_int64_def)
  have sr: "step ''/log'' ?rd ?wk = Some ?w2"
    by (simp add: reader_defs)
  have s3: "step ''/log'' (FsEvent (?fs ''x'') ?e) ?w2 = Some ?w3"
    by (simp add: reader_defs)
  have h: "handleEvent (?fs ''x'') ?e (?r 3 5) = (None, ?r 0 0, 1)"
    by (simp add: reader_defs)
  have s: "Has ?e Write" "os_Stat (?fs ''x'') (Name ?e) = Inr 1"
    by (simp_all add: reader_defs)
  have "offset (rd ?wk) \<le> offset (rd ?w2)"
    using offset_monotone [of "''/log''" ?rd ?wk ?w2 "?fs ''x''" ?e "?r 3 5" "?r 0 0" 1 1
        ?acts ?w2] sr rng
    by auto
  moreover have "offset (rd ?w1) \<le> offset (rd ?w2)"
    using offset_monotone [of "''/log''" Deliver ?w1 ?w1 "?fs ''x''" ?e "?r 3 5" "?r 0 0" 1 1
        ?acts ?w2] r2 nw rng
    by blast
  moreover have "offset (rd ?w2) \<le> offset (rd ?w3)
      \<or> (offset (rd ?w3) = 0 \<and> (\<exists>fs e sz. FsEvent (?fs ''x'') ?e = FsEvent fs e
            \<and> Name e = ''/log'' \<and> Has e Write \<and> os_Stat fs ''/log'' = Inr sz
            \<and> sz \<le> offset (rd ?w2)))"
    using offset_monotone [of "''/log''" "FsEvent (?fs ''x'') ?e" ?w2 ?w3 "?fs ''x''" ?e
        "?r 3 5" "?r 0 0" 1 1 ?acts ?w2] s3 rng
    by blast
  moreover have "offset (?r 0 0) \<le> 1"
    using offset_monotone [of "''/log''" Deliver ?w1 ?w1 "?fs ''x''" ?e "?r 3 5" "?r 0 0" 1 1
        ?acts ?w2] h s
    by blast
  ultimately show ?thesis
    using r2 s3 s rng by simp
qed

text \<open>
  Claim C9 as stated fails in its second half. \<open>Server.Watch\<close> on an empty \<open>/log\<close>: a
  write event whose stat sees 2 bytes wakes the consumer; by the time the consumer
  reads, the file has 4 bytes, and the offset becomes 4, above the size last seen.
\<close>

theorem offset_above_observed_size_counterexample:
  "os_Stat \<lparr>names = [''/log'' \<mapsto> 1], inodes = [1 \<mapsto> ''ab'']\<rparr> ''/log'' = Inr 2
   \<and> offset_after (run ''/log''
       [CallWatch \<lparr>names = [''/log'' \<mapsto> 1], inodes = [1 \<mapsto> []]\<rparr> None,
        FsEvent \<lparr>names = [''/log'' \<mapsto> 1], inodes = [1 \<mapsto> ''ab'']\<rparr>
          \<lparr>Name = ''/log'', Op = {Write}\<rparr>,
        Deliver,
        FileRead \<lparr>names = [''/log'' \<mapsto> 1], inodes = [1 \<mapsto> ''abcd'']\<rparr> 4096]
       Server_Watch) = Some 4"
  by (simp add: reader_defs)


section \<open>The registry and its lock\<close>

lemmas lock_defs = RLock_def RUnlock_def Lock_def Unlock_def unlocked_def

lemmas server_defs =
  NewServer_def NewConnections_def DefaultAddr_def broadcast_def Iter_def
  broadcast_visit_def write_task_def WriteMessage_def WriteControl_def ws_Close_def
  ping_tick_def Delete_def Add_def CloseHandler_def Connections_Close_def Close_visit_def
  Start_teardown_def stop_visit_def fresh_Conn_def fresh_heap_def
  closes_after_def attempts_after_def inbox_after_def registry_after_def settled_def

lemma Add_unlocks:
  assumes "unlocked (mu c)"
  shows "\<exists>c'. Add ws c = Some c' \<and> mu c' = mu c
      \<and> set (registry c') = insert ws (set (registry c))
      \<and> (distinct (registry c) \<longrightarrow> distinct (registry c'))"
  using assms by (cases "mu c") (auto simp: Add_def lock_defs)

lemma IsEmpty_unlocks:
  assumes "unlocked (mu c)"
  shows "IsEmpty c = Some (registry c = [], c)"
  using assms by (cases "mu c") (auto simp: IsEmpty_def lock_defs)

lemma Delete_unlocks:
  assumes "unlocked (mu c)"
  shows "\<exists>err c' h'. Delete ws c h = Some (err, c', h') \<and> mu c' = mu c"
  using assms by (cases "mu c") (auto simp: Delete_def lock_defs split: prod.splits)

lemma Iter_range_Close_visit:
  "Iter_range Close_visit xs h = (True, fold (\<lambda>ws h. snd (ws_Close ws h)) xs h)"
  by (induction xs arbitrary: h) (simp_all add: Close_visit_def)

lemma Iter_range_broadcast_visit:
  "Iter_range (broadcast_visit tx) xs started = (True, started @ map (\<lambda>ws. (ws, tx)) xs)"
  by (induction xs arbitrary: started) (simp_all add: broadcast_visit_def)

lemma Iter_unlocks:
  assumes "unlocked (mu c)" and "Iter_range fn (registry c) s = (True, s')"
  shows "Iter fn c s = Some (c, s')"
  using assms by (cases "mu c") (auto simp: Iter_def lock_defs)

lemma Iter_keeps_lock:
  assumes "unlocked (mu c)" and "Iter_range fn (registry c) s = (False, s')"
  shows "Iter fn c s = Some (c\<lparr>mu := (mu c)\<lparr>readers := 1\<rparr>\<rparr>, s')"
  using assms by (cases "mu c") (auto simp: Iter_def lock_defs)

lemma Connections_Close_unlocks:
  assumes "unlocked (mu c)"
  shows "Connections_Close c h = Some (c, fold (\<lambda>ws h. snd (ws_Close ws h)) (registry c) h)"
  using assms
  by (simp add: Connections_Close_def Iter_unlocks [OF _ Iter_range_Close_visit])

text \<open>
  Claim C3 fails on the code. \<open>Iter\<close> returns from inside its loop when the visitor
  answers \<open>false\<close>, and the \<open>RUnlock\<close> after the loop is not run: on a free registry
  with one connection and a visitor that stops, \<open>Iter\<close> returns with one reader still
  counted, after which \<open>Add\<close> and \<open>Delete\<close> cannot take the lock.
\<close>

theorem Iter_stop_keeps_read_lock:
  "Iter stop_visit \<lparr>mu = \<lparr>readers = 0, writer = False\<rparr>, registry = [7]\<rparr> ()
     = Some (\<lparr>mu = \<lparr>readers = 1, writer = False\<rparr>, registry = [7]\<rparr>, ())
   \<and> Add 8 \<lparr>mu = \<lparr>readers = 1, writer = False\<rparr>, registry = [7]\<rparr> = None
   \<and> Delete 7 \<lparr>mu = \<lparr>readers = 1, writer = False\<rparr>, registry = [7]\<rparr> fresh_heap = None"
  by (simp add: Iter_def stop_visit_def lock_defs Add_def Delete_def)

section \<open>Broadcast and the ways a connection is closed\<close>

lemma closes_fold_Close:
  "closes (fold (\<lambda>ws h. snd (ws_Close ws h)) xs h x) = closes (h x) + count_list xs x"
  by (induction xs arbitrary: h) (auto simp: ws_Close_def)

lemma count_list_distinct:
  "distinct xs \<Longrightarrow> count_list xs x = (if x \<in> set xs then 1 else 0)"
  by (induction xs) auto

lemma broadcast_result:
  assumes "unlocked (mu (connections s))"
  shows "broadcast s tx started
      = Some (s, started @ map (\<lambda>ws. (ws, tx)) (registry (connections s)))"
  using assms
  by (simp add: broadcast_def Iter_unlocks [OF _ Iter_range_broadcast_visit])

lemma broadcast_keeps_registry:
  assumes "broadcast s tx started = Some (s', started')"
  shows "registry (connections s') = registry (connections s)"
  using assms
  by (auto simp: broadcast_def Iter_def Iter_range_broadcast_visit
      split: option.splits prod.splits)

lemma write_task_keeps_others:
  assumes "x \<noteq> ws"
  shows "write_task tx ws h x = h x"
  using assms by (simp add: write_task_def WriteMessage_def ws_Close_def Let_def)

lemma CloseHandler_removes:
  assumes "CloseHandler ws s h = Some (err, s', h')"
  shows "ws \<notin> set (registry (connections s')) \<and> closes (h' ws) = Suc (closes (h ws))
      \<and> \<not> keepalive (h' ws)"
  using assms
  by (auto simp: CloseHandler_def Delete_def ws_Close_def split: option.splits)

lemma ping_tick_keeps_running: "keepalive (ping_tick ws h ws) = keepalive (h ws)"
  by (simp add: ping_tick_def WriteControl_def ws_Close_def)

text \<open>
  Claim C2 fails on the code. A server with the connections 1 and 2, where the peer of
  1 is gone, broadcasts two lines, and the two goroutines of each line run before the
  next line comes: connection 2 gets both, and the failed write to 1 closes it; but 1
  stays in the registry, so the second line is tried on it as well (two attempts) and
  it is closed a second time.
\<close>

theorem failed_write_stays_registered:
  "registry_after (settled (serve_all
      [Line ''a'', Go 0, Go 0, Line ''b'', Go 0, Go 0]
      (NewServer []\<lparr>connections := \<lparr>mu = \<lparr>readers = 0, writer = False\<rparr>, registry = [1, 2]\<rparr>\<rparr>,
       fresh_heap(1 := fresh_Conn\<lparr>alive := False\<rparr>), []))) = Some [1, 2]
   \<and> attempts_after 1 (settled (serve_all
      [Line ''a'', Go 0, Go 0, Line ''b'', Go 0, Go 0]
      (NewServer []\<lparr>connections := \<lparr>mu = \<lparr>readers = 0, writer = False\<rparr>, registry = [1, 2]\<rparr>\<rparr>,
       fresh_heap(1 := fresh_Conn\<lparr>alive := False\<rparr>), []))) = Some 2
   \<and> closes_after 1 (settled (serve_all
      [Line ''a'', Go 0, Go 0, Line ''b'', Go 0, Go 0]
      (NewServer []\<lparr>connections := \<lparr>mu = \<lparr>readers = 0, writer = False\<rparr>, registry = [1, 2]\<rparr>\<rparr>,
       fresh_heap(1 := fresh_Conn\<lparr>alive := False\<rparr>), []))) = Some 2
   \<and> inbox_after 2 (settled (serve_all
      [Line ''a'', Go 0, Go 0, Line ''b'', Go 0, Go 0]
      (NewServer []\<lparr>connections := \<lparr>mu = \<lparr>readers = 0, writer = False\<rparr>, registry = [1, 2]\<rparr>\<rparr>,
       fresh_heap(1 := fresh_Conn\<lparr>alive := False\<rparr>), []))) = Some [''a'', ''b'']"
  by (simp add: server_defs lock_defs Let_def)

text \<open>
  The order in which a connection gets the lines is the order in which the scheduler
  runs the goroutines: with both lines broadcast before any goroutine runs, and the
  goroutine of the second line run first, connection 2 gets \<open>b\<close> before \<open>a\<close>.
\<close>

lemma delivery_follows_the_scheduler:
  "inbox_after 2 (settled (serve_all
      [Line ''a'', Line ''b'', Go 3, Go 1, Go 0, Go 0]
      (NewServer []\<lparr>connections := \<lparr>mu = \<lparr>readers = 0, writer = False\<rparr>, registry = [1, 2]\<rparr>\<rparr>,
       fresh_heap, []))) = Some [''b'', ''a'']"
  by (simp add: server_defs lock_defs Let_def)

text \<open>
  The paths that close a connection. Each run of one calls \<open>Close\<close> on it once more,
  whatever happened before: \<open>Delete\<close> (the peer-close path) removes it from the
  registry and closes it; a dispatch write and a keepalive probe close it when they
  fail, and only then; the shutdown closes every registered connection once and
  removes none.
\<close>

lemma close_paths:
  "(Delete ws c h = Some (err, c', h') \<longrightarrow>
      ws \<notin> set (registry c') \<and> closes (h' ws) = Suc (closes (h ws)))
   \<and> closes (write_task tx ws h ws)
      = (if alive (h ws) \<and> closes (h ws) = 0 then closes (h ws) else Suc (closes (h ws)))
   \<and> (keepalive (h ws) \<longrightarrow>
        closes (ping_tick ws h ws)
        = (if alive (h ws) \<and> closes (h ws) = 0 then closes (h ws) else Suc (closes (h ws))))
   \<and> (unlocked (mu c) \<and> distinct (registry c) \<longrightarrow>
        (\<exists>h2. Connections_Close c h = Some (c, h2)
           \<and> (\<forall>x. closes (h2 x)
                = (if x \<in> set (registry c) then Suc (closes (h x)) else closes (h x)))))"
proof -
  have d: "Delete ws c h = Some (err, c', h') \<Longrightarrow>
      ws \<notin> set (registry c') \<and> closes (h' ws) = Suc (closes (h ws))"
    by (auto simp: Delete_def ws_Close_def split: option.splits)
  have w: "closes (write_task tx ws h ws)
      = (if alive (h ws) \<and> closes (h ws) = 0 then closes (h ws) else Suc (closes (h ws)))"
    by (simp add: write_task_def WriteMessage_def ws_Close_def Let_def)
  have p: "keepalive (h ws) \<Longrightarrow> closes (ping_tick ws h ws)
      = (if alive (h ws) \<and> closes (h ws) = 0 then closes (h ws) else Suc (closes (h ws)))"
    by (simp add: ping_tick_def WriteControl_def ws_Close_def)
  have cnt: "distinct (registry c) \<Longrightarrow>
      count_list (registry c) x = (if x \<in> set (registry c) then 1 else 0)" for x
    by (rule count_list_distinct)
  have s: "unlocked (mu c) \<and> distinct (registry c) \<Longrightarrow>
      \<exists>h2. Connections_Close c h = Some (c, h2)
        \<and> (\<forall>x. closes (h2 x)
             = (if x \<in> set (registry c) then Suc (closes (h x)) else closes (h x)))"
    using cnt by (simp add: Connections_Close_unlocks closes_fold_Close)
  from d w p s show ?thesis
    by blast
qed

text \<open>
  Connection 1, registered and not yet closed, with its peer gone: a write task, a
  keepalive tick and the shutdown each close it, and so does \<open>Delete\<close>, which also
  takes it out of the registry.
\<close>

lemma close_paths_example:
  "Delete 1 \<lparr>mu = \<lparr>readers = 0, writer = False\<rparr>, registry = [1, 2]\<rparr>
     (fresh_heap(1 := fresh_Conn\<lparr>alive := False, keepalive := True\<rparr>))
   = Some (None, \<lparr>mu = \<lparr>readers = 0, writer = False\<rparr>, registry = [2]\<rparr>,
       fresh_heap(1 := fresh_Conn\<lparr>alive := False, keepalive := True, closes := 1\<rparr>))
   \<and> closes (write_task ''a'' 1
       (fresh_heap(1 := fresh_Conn\<lparr>alive := False, keepalive := True\<rparr>)) 1) = 1
   \<and> closes (ping_tick 1
       (fresh_heap(1 := fresh_Conn\<lparr>alive := False, keepalive := True\<rparr>)) 1) = 1
   \<and> closes_after 1 (Start_teardown
       (NewServer []\<lparr>connections := \<lparr>mu = \<lparr>readers = 0, writer = False\<rparr>, registry = [1, 2]\<rparr>\<rparr>)
       (fresh_heap(1 := fresh_Conn\<lparr>alive := False, keepalive := True\<rparr>))) = Some 1"
proof -
  let ?c = "\<lparr>mu = \<lparr>readers = 0, writer = False\<rparr>, registry = [1, 2]\<rparr>"
  let ?h = "fresh_heap(1 := fresh_Conn\<lparr>alive := False, keepalive := True\<rparr>)"
  let ?h' = "fresh_heap(1 := fresh_Conn\<lparr>alive := False, keepalive := True, closes := 1\<rparr>)"
  let ?c' = "\<lparr>mu = \<lparr>readers = 0, writer = False\<rparr>, registry = [2::nat]\<rparr>"
  have d: "Delete 1 ?c ?h = Some (None, ?c', ?h')"
    by (simp add: Delete_def ws_Close_def lock_defs fresh_heap_def fresh_Conn_def)
  have k: "keepalive (?h 1)" "\<not> alive (?h 1)" "closes (?h 1) = 0"
    by (simp_all add: fresh_Conn_def)
  have u: "unlocked (mu ?c) \<and> distinct (registry ?c)"
    by (simp add: unlocked_def)
  from close_paths [of 1 ?c ?h None ?c' ?h' "''a''"] d k u
  have "closes (write_task ''a'' 1 ?h 1) = 1" and "closes (ping_tick 1 ?h 1) = 1"
    and "\<exists>h2. Connections_Close ?c ?h = Some (?c, h2) \<and> closes (h2 1) = 1"
    by auto
  with d show ?thesis
    by (auto simp: Start_teardown_def closes_after_def)
qed

text \<open>
  A connection that the close handler has removed is not closed again by the shutdown.
\<close>

lemma peer_close_then_shutdown_closes_once:
  "closes_after 1 (settled (serve_all [PeerClose 1, Shutdown]
      (NewServer []\<lparr>connections := \<lparr>mu = \<lparr>readers = 0, writer = False\<rparr>, registry = [1]\<rparr>\<rparr>,
       fresh_heap, []))) = Some 1
   \<and> closes_after 1 (settled (serve_all [Line ''a'', Go 0, Shutdown]
      (NewServer []\<lparr>connections := \<lparr>mu = \<lparr>readers = 0, writer = False\<rparr>, registry = [1]\<rparr>\<rparr>,
       fresh_heap, []))) = Some 1"
  by (simp add: server_defs lock_defs Let_def)

text \<open>
  Claim C6 fails on the code. A server with the one connection 1, whose peer is gone,
  broadcasts a line: the write fails and closes the connection, which stays in the
  registry; the shutdown then closes every registered connection, this one a second
  time.
\<close>

theorem failed_write_then_shutdown_closes_twice:
  "closes_after 1 (settled (serve_all [Line ''a'', Go 0]
      (NewServer []\<lparr>connections := \<lparr>mu = \<lparr>readers = 0, writer = False\<rparr>, registry = [1]\<rparr>\<rparr>,
       fresh_heap(1 := fresh_Conn\<lparr>alive := False\<rparr>), []))) = Some 1
   \<and> registry_after (settled (serve_all [Line ''a'', Go 0]
      (NewServer []\<lparr>connections := \<lparr>mu = \<lparr>readers = 0, writer = False\<rparr>, registry = [1]\<rparr>\<rparr>,
       fresh_heap(1 := fresh_Conn\<lparr>alive := False\<rparr>), []))) = Some [1]
   \<and> closes_after 1 (settled (serve_all [Line ''a'', Go 0, Shutdown]
      (NewServer []\<lparr>connections := \<lparr>mu = \<lparr>readers = 0, writer = False\<rparr>, registry = [1]\<rparr>\<rparr>,
       fresh_heap(1 := fresh_Conn\<lparr>alive := False\<rparr>), []))) = Some 2"
  by (simp add: server_defs lock_defs Let_def)

section \<open>The origin check and the keepalive periods\<close>

text \<open>
  Claim C8. With a non-empty allowed origin, \<open>CheckOrigin\<close> holds exactly when the
  request's \<open>Origin\<close> header equals it, and \<open>HandleWS\<close> leaves the server and its
  registry as they were for a request with another origin; with the empty origin
  \<open>CheckOrigin\<close> holds for every request. A request that passes the check and the
  library's handshake is registered.
\<close>

theorem origin_check:
  "(origin s \<noteq> [] \<longrightarrow> CheckOrigin s r = (Header_Get (header r) ''Origin'' = origin s))
   \<and> (origin s \<noteq> [] \<and> Header_Get (header r) ''Origin'' \<noteq> origin s \<longrightarrow>
        HandleWS s r ws h = Some (s, h))
   \<and> (origin s = [] \<longrightarrow> CheckOrigin s r)
   \<and> (CheckOrigin s r \<and> handshake r \<and> unlocked (mu (connections s)) \<longrightarrow>
        (\<exists>s' h'. HandleWS s r ws h = Some (s', h') \<and> ws \<in> set (registry (connections s'))))"
proof -
  have "CheckOrigin s r \<and> handshake r \<and> unlocked (mu (connections s)) \<Longrightarrow>
      \<exists>s' h'. HandleWS s r ws h = Some (s', h') \<and> ws \<in> set (registry (connections s'))"
    using Add_unlocks [of "connections s" ws] by (auto simp: HandleWS_def Upgrade_def)
  then show ?thesis
    by (auto simp: CheckOrigin_def HandleWS_def Upgrade_def)
qed

text \<open>
  A server that allows \<open>https://a.example\<close> takes a request from there and refuses one
  from \<open>https://b.example\<close>; a server with no allowed origin takes the latter.
\<close>

theorem origin_check_witness:
  "CheckOrigin (NewServer [Origin ''https://a.example''])
     \<lparr>header = [''Origin'' \<mapsto> [''https://a.example'']], RemoteAddr = ''10.0.0.1:5000'',
      handshake = True\<rparr>
   \<and> registry_after (HandleWS (NewServer [Origin ''https://a.example''])
     \<lparr>header = [''Origin'' \<mapsto> [''https://a.example'']], RemoteAddr = ''10.0.0.1:5000'',
      handshake = True\<rparr> 1 fresh_heap) = Some [1]
   \<and> \<not> CheckOrigin (NewServer [Origin ''https://a.example''])
     \<lparr>header = [''Origin'' \<mapsto> [''https://b.example'']], RemoteAddr = ''10.0.0.2:5000'',
      handshake = True\<rparr>
   \<and> registry_after (HandleWS (NewServer [Origin ''https://a.example''])
     \<lparr>header = [''Origin'' \<mapsto> [''https://b.example'']], RemoteAddr = ''10.0.0.2:5000'',
      handshake = True\<rparr> 1 fresh_heap) = Some []
   \<and> CheckOrigin (NewServer [])
     \<lparr>header = [''Origin'' \<mapsto> [''https://b.example'']], RemoteAddr = ''10.0.0.2:5000'',
      handshake = True\<rparr>"
proof -
  let ?s = "NewServer [Origin ''https://a.example'']"
  let ?a = "\<lparr>header = [''Origin'' \<mapsto> [''https://a.example'']],
      RemoteAddr = ''10.0.0.1:5000'', handshake = True\<rparr>"
  let ?b = "\<lparr>header = [''Origin'' \<mapsto> [''https://b.example'']],
      RemoteAddr = ''10.0.0.2:5000'', handshake = True\<rparr>"
  have o: "origin ?s = ''https://a.example''" "origin (NewServer []) = []"
    and u: "unlocked (mu (connections ?s))" and reg: "registry (connections ?s) = []"
    by (simp_all add: NewServer_def NewConnections_def unlocked_def)
  have g: "Header_Get (header ?a) ''Origin'' = ''https://a.example''"
    "Header_Get (header ?b) ''Origin'' = ''https://b.example''" "handshake ?a"
    by (simp_all add: Header_Get_def)
  have a: "CheckOrigin ?s ?a"
    using origin_check [of ?s ?a 1 fresh_heap] o g by simp
  have ra: "registry_after (HandleWS ?s ?a 1 fresh_heap) = Some [1]"
    using origin_check [of ?s ?a 1 fresh_heap] a g u reg
    by (auto simp: registry_after_def HandleWS_def Upgrade_def Add_def split: option.splits)
  have b: "\<not> CheckOrigin ?s ?b" and rb: "HandleWS ?s ?b 1 fresh_heap = Some (?s, fresh_heap)"
    using origin_check [of ?s ?b 1 fresh_heap] o g by simp_all
  have e: "CheckOrigin (NewServer []) ?b"
    using origin_check [of "NewServer []" ?b 1 fresh_heap] o by simp
  from a ra b rb e reg show ?thesis
    by (simp add: registry_after_def)
qed

text \<open>
  Claim C10. The read deadline \<open>pongWait\<close> is 60 seconds, the probe period \<open>pingPeriod\<close>
  is 54 seconds, nine tenths of the deadline, and so strictly shorter than it.
\<close>

theorem keepalive_periods:
  "sint Second = 10 ^ 9
   \<and> sint pongWait = 60 * sint Second
   \<and> sint pingPeriod = 54 * sint Second
   \<and> 10 * sint pingPeriod = 9 * sint pongWait
   \<and> 0 < sint pingPeriod \<and> sint pingPeriod < sint pongWait"
  by (simp add: pongWait_def pingPeriod_def Second_def Duration_div_def signed_divide_int_def)

end
